theory Spec2Isabelle
  imports Main
begin

section \<open>Node's \<open>path\<close> module (POSIX) as used by the bucket routes\<close>

text \<open>
  The routes call \<open>path.join\<close> and \<open>path.extname\<close>. Both belong to the platform, not
  to the repository; they are written here after Node's \<open>lib/path.js\<close> (POSIX flavour),
  segment by segment instead of character by character.
\<close>

fun split_slash :: "string \<Rightarrow> string list" where
  "split_slash [] = [[]]"
| "split_slash (c # cs) =
     (if c = CHR ''/'' then [] # split_slash cs
      else (case split_slash cs of [] \<Rightarrow> [[c]] | s # ss \<Rightarrow> (c # s) # ss))"

text \<open>
  One step of \<open>normalizeString\<close>: \<open>res\<close> is the stack of segments kept so far, the last
  one first. Empty segments and \<open>.\<close> are dropped; \<open>..\<close> removes the last kept segment,
  unless there is none (or it is itself \<open>..\<close>), in which case it is kept for a relative
  path (\<open>allowAboveRoot\<close>) and dropped for an absolute one.
\<close>

definition normalize_step :: "bool \<Rightarrow> string list \<Rightarrow> string \<Rightarrow> string list" where
  "normalize_step allowAboveRoot res seg =
     (if seg = [] \<or> seg = ''.'' then res
      else if seg = ''..'' then
        (case res of
           [] \<Rightarrow> (if allowAboveRoot then [''..''] else [])
         | lastSeg # rest \<Rightarrow>
             (if lastSeg = ''..'' then (if allowAboveRoot then ''..'' # res else res)
              else rest))
      else seg # res)"

definition normalizeString :: "bool \<Rightarrow> string list \<Rightarrow> string list" where
  "normalizeString allowAboveRoot segs = rev (foldl (normalize_step allowAboveRoot) [] segs)"

fun join_slash :: "string list \<Rightarrow> string" where
  "join_slash [] = []"
| "join_slash [s] = s"
| "join_slash (s # t # ss) = s @ ''/'' @ join_slash (t # ss)"

text \<open>
  The end of \<open>path.normalize\<close>: the kept segments are written out with slashes, after
  the leading slash of an absolute path and before the trailing slash of the input.
\<close>

definition render :: "bool \<Rightarrow> bool \<Rightarrow> string list \<Rightarrow> string" where
  "render isAbsolute trailingSeparator segs =
     (if segs = [] then
        (if isAbsolute then ''/'' else if trailingSeparator then ''./'' else ''.'')
      else (if isAbsolute then ''/'' else [])
           @ join_slash segs
           @ (if trailingSeparator then ''/'' else []))"

definition normalize :: "string \<Rightarrow> string" where
  "normalize p =
     (if length p = 0 then ''.''
      else
        let isAbsolute = (hd p = CHR ''/'');
            trailingSeparator = (last p = CHR ''/'')
        in render isAbsolute trailingSeparator
             (normalizeString (\<not> isAbsolute) (split_slash p)))"

text \<open>The loop of \<open>path.join\<close>: \<open>joined\<close> is \<open>None\<close> while it is still \<open>undefined\<close>.\<close>

fun join_loop :: "string option \<Rightarrow> string list \<Rightarrow> string option" where
  "join_loop joined [] = joined"
| "join_loop joined (arg # args) =
     (if length arg > 0 then
        (case joined of
           None \<Rightarrow> join_loop (Some arg) args
         | Some j \<Rightarrow> join_loop (Some (j @ ''/'' @ arg)) args)
      else join_loop joined args)"

definition path_join :: "string list \<Rightarrow> string" where
  "path_join args = (case join_loop None args of None \<Rightarrow> ''.'' | Some joined \<Rightarrow> normalize joined)"

text \<open>The segments of \<open>path_join args\<close>, before they are rendered with slashes.\<close>

definition join_segments :: "string list \<Rightarrow> string list" where
  "join_segments args =
     (case join_loop None args of
        None \<Rightarrow> []
      | Some joined \<Rightarrow> normalizeString (hd joined \<noteq> CHR ''/'') (split_slash joined))"

text \<open>
  \<open>path.extname\<close>: the text from the last dot of the last path component, empty when
  that component has no dot, starts with its only dot, or is \<open>..\<close>.
\<close>

definition last_component :: "string \<Rightarrow> string" where
  "last_component p =
     (case filter (\<lambda>s. s \<noteq> []) (split_slash p) of [] \<Rightarrow> [] | s # ss \<Rightarrow> last (s # ss))"

definition from_last_dot :: "string \<Rightarrow> string" where
  "from_last_dot part = CHR ''.'' # rev (takeWhile (\<lambda>c. c \<noteq> CHR ''.'') (rev part))"

definition extname :: "string \<Rightarrow> string" where
  "extname p =
     (let part = last_component p in
      if CHR ''.'' \<notin> set part then []
      else if length (from_last_dot part) = length part then []
      else if part = ''..'' then []
      else from_last_dot part)"

section \<open>Upload storage: the generated file name\<close>

text \<open>String concatenation with a number: the decimal digits of \<open>Date.now()\<close>.\<close>

definition digit_char :: "nat \<Rightarrow> char" where
  "digit_char n = ''0123456789'' ! n"

fun show_nat :: "nat \<Rightarrow> string" where
  "show_nat n = (if n < 10 then [digit_char n] else show_nat (n div 10) @ [digit_char (n mod 10)])"

text \<open>
  \<open>filename: (req, file, callback) => callback(null, path.extname(file.originalname) + Date.now())\<close>;
  \<open>now\<close> is the value of \<open>Date.now()\<close>.
\<close>

definition filename :: "string \<Rightarrow> nat \<Rightarrow> string" where
  "filename originalname now = extname originalname @ show_nat now"

text \<open>
  The number that a string of decimal digits denotes; it is used to say which timestamp
  a stored name carries.
\<close>

definition digit_value :: "char \<Rightarrow> nat" where
  "digit_value c = length (takeWhile (\<lambda>d. d \<noteq> c) ''0123456789'')"

definition decimal_value :: "string \<Rightarrow> nat" where
  "decimal_value ds = foldl (\<lambda>acc c. 10 * acc + digit_value c) 0 ds"

definition destination :: "string" where
  "destination = ''upload''"

section \<open>The job manager\<close>

text \<open>
  Modelled from the spec: the job registry and its state machine. The routes import
  them as \<open>bucketQueue\<close> from \<open>jobs/bucket.jobs\<close>, which is not part of the sources at
  hand, and never call them. A job has one of five states, three of them terminal.
\<close>

datatype job_state = Queued | Running | Succeeded | Failed | Cancelled

fun terminal :: "job_state \<Rightarrow> bool" where
  "terminal Succeeded = True"
| "terminal Failed = True"
| "terminal Cancelled = True"
| "terminal st = False"

text \<open>
  Modelled from the spec: the state machine per job,
  \<open>Queued -> Running -> {Succeeded, Failed}\<close>, \<open>Queued -> Cancelled\<close>, \<open>Running -> Cancelled\<close>.
\<close>

fun transition :: "job_state \<Rightarrow> job_state \<Rightarrow> bool" where
  "transition Queued Running = True"
| "transition Running Succeeded = True"
| "transition Running Failed = True"
| "transition Queued Cancelled = True"
| "transition Running Cancelled = True"
| "transition st st' = False"

text \<open>
  Modelled from the spec: a job with its bucket id, owning user id, operation kind,
  parameters and state (the timestamps and the result detail of the spec's job take no
  part in the transitions and are left out).
\<close>

datatype operation = Zip | Unzip | DownloadJob

record job =
  jobBucket :: string
  jobOwner :: string
  jobOperation :: operation
  jobParams :: "string list"
  jobState :: job_state

text \<open>
  Modelled from the spec: the registry, keyed by job id. Identifiers are monotonic: the
  id of a job is its position in the registry; an entry evicted after the retention
  window is \<open>None\<close>.
\<close>

type_synonym registry = "job option list"

datatype job_error = JobNotFound | AlreadyTerminal

text \<open>
  Modelled from the spec: \<open>submit(bucketId, userId, operation, params) -> JobId\<close> always
  succeeds and records the job as \<open>Queued\<close>.
\<close>

definition submit :: "string \<Rightarrow> string \<Rightarrow> operation \<Rightarrow> string list \<Rightarrow> registry \<Rightarrow> nat \<times> registry" where
  "submit b u operation ps reg =
     (length reg,
      reg @ [Some \<lparr>jobBucket = b, jobOwner = u, jobOperation = operation,
                   jobParams = ps, jobState = Queued\<rparr>])"

text \<open>Modelled from the spec: \<open>status(jobId) -> JobView | fails(NotFound)\<close>.\<close>

definition job_status :: "nat \<Rightarrow> registry \<Rightarrow> job_error + job" where
  "job_status j reg =
     (if j < length reg then
        (case reg ! j of None \<Rightarrow> Inl JobNotFound | Some jb \<Rightarrow> Inr jb)
      else Inl JobNotFound)"

text \<open>
  Modelled from the spec: the worker that owns a job records a state for it; the
  registry takes it only along a transition of the state machine.
\<close>

definition record_state :: "nat \<Rightarrow> job_state \<Rightarrow> registry \<Rightarrow> registry" where
  "record_state j st reg =
     (case job_status j reg of
        Inl e \<Rightarrow> reg
      | Inr jb \<Rightarrow>
          if transition (jobState jb) st then reg[j := Some (jb\<lparr>jobState := st\<rparr>)] else reg)"

text \<open>Modelled from the spec: \<open>cancel(jobId) -> fails(NotFound|AlreadyTerminal)\<close>.\<close>

definition cancel :: "nat \<Rightarrow> registry \<Rightarrow> job_error + registry" where
  "cancel j reg =
     (case job_status j reg of
        Inl e \<Rightarrow> Inl JobNotFound
      | Inr jb \<Rightarrow>
          if terminal (jobState jb) then Inl AlreadyTerminal
          else Inr (reg[j := Some (jb\<lparr>jobState := Cancelled\<rparr>)]))"

text \<open>
  Modelled from the spec: after the retention window a job that has reached a terminal
  state is eligible for eviction; no other job is.
\<close>

definition evict :: "nat \<Rightarrow> registry \<Rightarrow> registry" where
  "evict j reg =
     (case job_status j reg of
        Inl e \<Rightarrow> reg
      | Inr jb \<Rightarrow> if terminal (jobState jb) then reg[j := None] else reg)"

text \<open>Modelled from the spec: what can happen to the registry, and a run of such events.\<close>

datatype job_event =
    Submit string string operation "string list"
  | Worker nat job_state
  | Cancel nat
  | Evict nat

fun job_step :: "registry \<Rightarrow> job_event \<Rightarrow> registry" where
  "job_step reg (Submit b u operation ps) = snd (submit b u operation ps reg)"
| "job_step reg (Worker j st) = record_state j st reg"
| "job_step reg (Cancel j) = (case cancel j reg of Inl e \<Rightarrow> reg | Inr reg' \<Rightarrow> reg')"
| "job_step reg (Evict j) = evict j reg"

definition run_events :: "registry \<Rightarrow> job_event list \<Rightarrow> registry" where
  "run_events reg evs = foldl job_step reg evs"

section \<open>Requests, responses and the collaborators of the routes\<close>

text \<open>
  \<open>misc/StatusCode\<close> is not part of the sources at hand; the four codes the routes use
  are kept symbolic, under the names the routes give them.
\<close>

datatype status = OK | NotFound | Forbidden | InternalServerError

datatype node = File | Dir "string list"

datatype exn =
    TypeError
  | ReferenceError string
  | ERR_HTTP_HEADERS_SENT
  | ENOENT string
  | ENOTDIR string
  | InvalidDocumentPath

datatype body =
    Message string
  | Buckets "string list"
  | Listing "string list" "string list"
  | StatBody node
  | ErrorFields exn

text \<open>A project document and a bucket document of the Firestore collections.\<close>

record project =
  ownerId :: string
  collaborators :: "string list"
  buckets :: "string list"

record bucket =
  isPublic :: bool

text \<open>
  What a handler reads and never changes: the two collections, \<open>Config.bucketSite\<close>
  (the configuration module is not part of the sources at hand, so the value is a
  parameter) and the working directory of the process.
\<close>

record env =
  projects :: "string \<Rightarrow> project option"
  bucketDocs :: "string \<Rightarrow> bucket option"
  bucketSite :: string
  cwd :: string

text \<open>
  A request after the \<open>authorization\<close> middleware: \<open>req.user.uid\<close>, \<open>req.query\<close> and
  \<open>req.body\<close> (\<open>None\<close> when no body parser has filled it in). A parameter that is
  \<open>undefined\<close> is \<open>None\<close>.
\<close>

record request =
  uid :: string
  query :: "string \<Rightarrow> string option"
  reqBody :: "(string \<Rightarrow> string option) option"

datatype event = Readdir string | StatCall string

text \<open>
  What a handler can change: the response (\<open>sent\<close> is \<open>None\<close> until \<open>res.send\<close> has been
  called), the file system (absolute, normalised path to node), the job registry of
  \<open>jobs/bucket.jobs\<close> (imported by the routes as \<open>bucketQueue\<close>), and the record of the
  file-system calls made.
\<close>

record state =
  sent :: "(status \<times> body) option"
  fsys :: "string \<Rightarrow> node option"
  bucketQueue :: registry
  trace :: "event list"

type_synonym 'a io = "state \<Rightarrow> (exn + 'a) \<times> state"

definition ret :: "'a \<Rightarrow> 'a io" where
  "ret x s = (Inr x, s)"

definition throw :: "exn \<Rightarrow> 'a io" where
  "throw e s = (Inl e, s)"

definition bind :: "'a io \<Rightarrow> ('a \<Rightarrow> 'b io) \<Rightarrow> 'b io" where
  "bind m f s = (case m s of (Inl e, s') \<Rightarrow> (Inl e, s') | (Inr x, s') \<Rightarrow> f x s')"

definition try_catch :: "'a io \<Rightarrow> (exn \<Rightarrow> 'a io) \<Rightarrow> 'a io" where
  "try_catch m h s = (case m s of (Inl e, s') \<Rightarrow> h e s' | (Inr x, s') \<Rightarrow> (Inr x, s'))"

text \<open>
  \<open>res.status(c).send(b)\<close>: the first call delivers the response; Express throws
  \<open>ERR_HTTP_HEADERS_SENT\<close> on a later one.
\<close>

definition send :: "status \<Rightarrow> body \<Rightarrow> unit io" where
  "send c b s =
     (case sent s of
        None \<Rightarrow> (Inr (), s\<lparr>sent := Some (c, b)\<rparr>)
      | Some r \<Rightarrow> (Inl ERR_HTTP_HEADERS_SENT, s))"

text \<open>
  Modelled from the spec: \<open>DataValidation.allNotUndefined\<close> (\<open>misc/DataValidation\<close> is
  not part of the sources at hand) holds when none of its arguments is \<open>undefined\<close>, as
  its name and the handlers' message \<open>Require: pid, bid, d\<close> say.
\<close>

definition allNotUndefined :: "string option list \<Rightarrow> bool" where
  "allNotUndefined xs = (\<forall>x \<in> set xs. x \<noteq> None)"

text \<open>
  The file system calls. A relative path is resolved against the working directory of
  the process, as the operating system does.
\<close>

definition fs_resolve :: "env \<Rightarrow> string \<Rightarrow> string" where
  "fs_resolve E p =
     CHR ''/'' # join_slash
       (if p \<noteq> [] \<and> hd p = CHR ''/'' then join_segments [p] else join_segments [cwd E, p])"

definition readdirSync :: "env \<Rightarrow> string \<Rightarrow> string list io" where
  "readdirSync E p s =
     (let s' = s\<lparr>trace := trace s @ [Readdir p]\<rparr> in
      case fsys s (fs_resolve E p) of
        None \<Rightarrow> (Inl (ENOENT p), s')
      | Some File \<Rightarrow> (Inl (ENOTDIR p), s')
      | Some (Dir items) \<Rightarrow> (Inr items, s'))"

definition statSync :: "env \<Rightarrow> string \<Rightarrow> node io" where
  "statSync E p s =
     (let s' = s\<lparr>trace := trace s @ [StatCall p]\<rparr> in
      case fsys s (fs_resolve E p) of
        None \<Rightarrow> (Inl (ENOENT p), s')
      | Some n \<Rightarrow> (Inr n, s'))"

definition isFile :: "node \<Rightarrow> bool" where
  "isFile n = (n = File)"

text \<open>\<open>items.filter(p)\<close> for a predicate that may throw: the first exception ends the loop.\<close>

fun filter_io :: "(string \<Rightarrow> bool io) \<Rightarrow> string list \<Rightarrow> string list io" where
  "filter_io p [] = ret []"
| "filter_io p (f # fs) =
     bind (p f) (\<lambda>keep. bind (filter_io p fs) (\<lambda>rest. ret (if keep then f # rest else rest)))"

text \<open>\<open>(await doc.get()).data()\<close> followed by a property read: \<open>undefined\<close> has no properties.\<close>

definition data_of :: "'a option \<Rightarrow> 'a io" where
  "data_of doc = (case doc of None \<Rightarrow> throw TypeError | Some d \<Rightarrow> ret d)"

section \<open>The permission check\<close>

text \<open>
  The body of the \<open>async\<close> function \<open>checkProjectPerm(res, pid, uid)\<close>, run to its end:
  the value is what its promise resolves to, an exception is a rejection of the promise.
\<close>

definition checkProjectPerm :: "env \<Rightarrow> string option \<Rightarrow> string \<Rightarrow> bool io" where
  "checkProjectPerm E pid u =
     (case pid of
        None \<Rightarrow> throw InvalidDocumentPath
      | Some p \<Rightarrow>
          bind (data_of (projects E p)) (\<lambda>projectData.
            if ownerId projectData \<noteq> u then
              (if u \<notin> set (collaborators projectData) then
                 bind (send Forbidden
                         (Message (''Accessing to project ['' @ p @ ''] does not allow'')))
                   (\<lambda>_. ret False)
               else ret True)
            else ret True))"

text \<open>
  A call of an \<open>async\<close> function evaluates to a promise at once; its body goes on after
  the caller has given up control. A promise is an object, and every object is truthy.
\<close>

datatype jsval = JBool bool | JPromise

fun truthy :: "jsval \<Rightarrow> bool" where
  "truthy (JBool b) = b"
| "truthy JPromise = True"

definition call_async :: "'a io \<Rightarrow> jsval" where
  "call_async body = JPromise"

text \<open>
  Where a handler awaits its own Firestore read, the pending body of the permission
  check runs either before the handler goes on or after it has finished, depending on
  which read is answered first.
\<close>

datatype schedule = PermFirst | HandlerFirst

definition run_pending :: "bool \<Rightarrow> 'a io \<Rightarrow> state \<Rightarrow> state" where
  "run_pending now body s = (if now then snd (body s) else s)"

section \<open>The handlers\<close>

text \<open>The text of a parameter inside a string concatenation.\<close>

definition str :: "string option \<Rightarrow> string" where
  "str x = (case x of None \<Rightarrow> ''undefined'' | Some v \<Rightarrow> v)"

text \<open>
  A read of a variable: a name that no enclosing scope binds throws a
  \<open>ReferenceError\<close>. In the handler of \<open>/list\<close> no variable holding a project document
  is in scope: \<open>projectData\<close> is declared with \<open>let\<close> inside \<open>checkProjectPerm\<close> only.
\<close>

definition var_ref :: "(string \<Rightarrow> 'a option) \<Rightarrow> string \<Rightarrow> 'a io" where
  "var_ref scope x = (case scope x of None \<Rightarrow> throw (ReferenceError x) | Some v \<Rightarrow> ret v)"

definition list_scope :: "string \<Rightarrow> project option" where
  "list_scope x = None"

text \<open>
  \<open>router.get("/list")\<close>. The handler awaits nothing, so the pending body of the
  permission check runs after the handler has finished.
\<close>

definition get_list :: "env \<Rightarrow> request \<Rightarrow> unit io" where
  "get_list E req s0 =
     (let pid = query req ''pid'';
          perm = checkProjectPerm E pid (uid req);
          (r, s1) =
            try_catch
              (bind (if \<not> allNotUndefined [pid]
                     then send NotFound (Message ''Not Found'') else ret ())
                 (\<lambda>_. if \<not> truthy (call_async perm) then ret ()
                      else bind (var_ref list_scope ''projectData'')
                             (\<lambda>projectData. send OK (Buckets (buckets projectData)))))
              (\<lambda>error. send InternalServerError (ErrorFields error)) s0
      in (r, run_pending True perm s1))"

text \<open>\<open>router.get("/")\<close>: the part of the \<open>try\<close> block after the \<open>await\<close>.\<close>

definition list_directory :: "env \<Rightarrow> string \<Rightarrow> string \<Rightarrow> unit io" where
  "list_directory E bid d =
     bind (data_of (bucketDocs E bid)) (\<lambda>bucketData.
       if \<not> isPublic bucketData then
         send NotFound (Message (''Bucket ['' @ bid @ ''] is not public''))
       else
         let currentDir = path_join [bucketSite E, bid, d] in
         bind (readdirSync E currentDir) (\<lambda>items.
         bind (filter_io (\<lambda>f. bind (statSync E f) (\<lambda>st. ret (isFile st))) items) (\<lambda>files.
         let folders = filter (\<lambda>f. f \<notin> set files) items in
         send OK (Listing files folders))))"

definition get_root :: "env \<Rightarrow> schedule \<Rightarrow> request \<Rightarrow> unit io" where
  "get_root E sch req s0 =
     (let pid = query req ''pid''; bid = query req ''bid''; d = query req ''d'' in
      if \<not> allNotUndefined [pid, bid, d] then
        send NotFound (Message ''Require: pid, bid, d'') s0
      else
        let perm = checkProjectPerm E pid (uid req) in
        if \<not> truthy (call_async perm) then (Inr (), run_pending True perm s0)
        else
          let s1 = run_pending (sch = PermFirst) perm s0;
              (r, s2) =
                try_catch (list_directory E (str bid) (str d))
                  (\<lambda>error. send InternalServerError (Message ''Internal Server Error'')) s1
          in (r, run_pending (sch = HandlerFirst) perm s2))"

text \<open>\<open>router.get("/metadata")\<close>.\<close>

definition read_metadata :: "env \<Rightarrow> string \<Rightarrow> string \<Rightarrow> unit io" where
  "read_metadata E bid f =
     bind (data_of (bucketDocs E bid)) (\<lambda>bucketData.
       if \<not> isPublic bucketData then send NotFound (Message ''Not Found'')
       else
         let currentDir = path_join [bucketSite E, bid, f] in
         bind (statSync E currentDir) (\<lambda>stat. send OK (StatBody stat)))"

definition get_metadata :: "env \<Rightarrow> schedule \<Rightarrow> request \<Rightarrow> unit io" where
  "get_metadata E sch req s0 =
     (let pid = query req ''pid''; bid = query req ''bid''; f = query req ''f'' in
      if \<not> allNotUndefined [pid, bid, f] then send NotFound (Message ''Not Found'') s0
      else
        let perm = checkProjectPerm E pid (uid req) in
        if \<not> truthy (call_async perm) then (Inr (), run_pending True perm s0)
        else
          let s1 = run_pending (sch = PermFirst) perm s0;
              (r, s2) =
                try_catch (read_metadata E (str bid) (str f))
                  (\<lambda>error. send InternalServerError (ErrorFields error)) s1
          in (r, run_pending (sch = HandlerFirst) perm s2))"

text \<open>
  The remaining handlers consist of one statement each, \<open>const { ... } = req.body\<close>
  (which throws when \<open>req.body\<close> is \<open>undefined\<close>) or \<open>const { pid } = req.params\<close>
  (\<open>req.params\<close> is always an object).
\<close>

definition destructure :: "'a option \<Rightarrow> unit io" where
  "destructure obj = (case obj of None \<Rightarrow> throw TypeError | Some b \<Rightarrow> ret ())"

definition put_mkdir :: "env \<Rightarrow> request \<Rightarrow> unit io" where
  "put_mkdir E req = destructure (reqBody req)"

definition put_mv :: "env \<Rightarrow> request \<Rightarrow> unit io" where
  "put_mv E req = destructure (reqBody req)"

definition put_cp :: "env \<Rightarrow> request \<Rightarrow> unit io" where
  "put_cp E req = destructure (reqBody req)"

definition put_rm :: "env \<Rightarrow> request \<Rightarrow> unit io" where
  "put_rm E req = destructure (reqBody req)"

definition get_jobs :: "env \<Rightarrow> request \<Rightarrow> unit io" where
  "get_jobs E req = ret ()"

definition put_zip :: "env \<Rightarrow> request \<Rightarrow> unit io" where
  "put_zip E req = destructure (reqBody req)"

definition put_unzip :: "env \<Rightarrow> request \<Rightarrow> unit io" where
  "put_unzip E req = destructure (reqBody req)"

definition put_download_job :: "env \<Rightarrow> request \<Rightarrow> unit io" where
  "put_download_job E req = destructure (reqBody req)"

text \<open>Every request comes with a response object of its own.\<close>

definition next_request :: "state \<Rightarrow> state" where
  "next_request s = s\<lparr>sent := None, trace := []\<rparr>"

section \<open>A sample deployment\<close>

text \<open>
  Project \<open>p1\<close> is owned by alice, with bob as collaborator; bucket \<open>b1\<close> is public,
  \<open>b2\<close> is private, no other bucket exists. The process runs in \<open>/app\<close>.
\<close>

definition env0 :: env where
  "env0 =
     \<lparr>projects = (\<lambda>p. if p = ''p1''
         then Some \<lparr>ownerId = ''alice'', collaborators = [''bob''], buckets = [''b1'', ''b2'']\<rparr>
         else None),
      bucketDocs = (\<lambda>b. if b = ''b1'' then Some \<lparr>isPublic = True\<rparr>
         else if b = ''b2'' then Some \<lparr>isPublic = False\<rparr> else None),
      bucketSite = ''/srv/buckets'',
      cwd = ''/app''\<rparr>"

text \<open>
  Bucket \<open>b1\<close> holds the file \<open>a.txt\<close> and the folder \<open>sub\<close>. In \<open>fs0\<close> the working
  directory has no entry of either name; in \<open>fs1\<close> it has a folder \<open>a.txt\<close> and a
  file \<open>sub\<close>.
\<close>

definition fs0 :: "string \<Rightarrow> node option" where
  "fs0 p =
     (if p = ''/srv/buckets/b1'' then Some (Dir [''a.txt'', ''sub''])
      else if p = ''/srv/buckets/b1/a.txt'' then Some File
      else if p = ''/srv/buckets/b1/sub'' then Some (Dir [])
      else if p = ''/srv/buckets/b2'' then Some (Dir [''secret.txt''])
      else if p = ''/srv/buckets/b2/secret.txt'' then Some File
      else if p = ''/app'' then Some (Dir [])
      else None)"

definition fs1 :: "string \<Rightarrow> node option" where
  "fs1 p =
     (if p = ''/app'' then Some (Dir [''a.txt'', ''sub''])
      else if p = ''/app/a.txt'' then Some (Dir [])
      else if p = ''/app/sub'' then Some File
      else fs0 p)"

definition state0 :: state where
  "state0 = \<lparr>sent = None, fsys = fs0, bucketQueue = [], trace = []\<rparr>"

definition state1 :: state where
  "state1 = \<lparr>sent = None, fsys = fs1, bucketQueue = [], trace = []\<rparr>"

definition params :: "(string \<times> string) list \<Rightarrow> string \<Rightarrow> string option" where
  "params kvs = map_of kvs"

definition get_request :: "string \<Rightarrow> (string \<times> string) list \<Rightarrow> request" where
  "get_request u kvs = \<lparr>uid = u, query = params kvs, reqBody = None\<rparr>"

definition put_request :: "string \<Rightarrow> (string \<times> string) list \<Rightarrow> request" where
  "put_request u kvs = \<lparr>uid = u, query = params [], reqBody = Some (params kvs)\<rparr>"

section \<open>Paths that stay inside the bucket root\<close>

text \<open>
  A logical path, given by its segments, is fully inside the root when no prefix of it
  climbs above the directory it starts from: \<open>n\<close> is the depth reached so far.
\<close>

fun stays_inside_from :: "nat \<Rightarrow> string list \<Rightarrow> bool" where
  "stays_inside_from n [] = True"
| "stays_inside_from n (seg # segs) =
     (if seg = [] \<or> seg = ''.'' then stays_inside_from n segs
      else if seg = ''..'' then n > 0 \<and> stays_inside_from (n - 1) segs
      else stays_inside_from (Suc n) segs)"

definition stays_inside :: "string \<Rightarrow> bool" where
  "stays_inside p = stays_inside_from 0 (split_slash p)"

section \<open>Evaluation of the handlers\<close>

lemmas run_defs =
  get_root_def get_metadata_def get_list_def list_directory_def read_metadata_def
  checkProjectPerm_def bind_def ret_def throw_def try_catch_def send_def data_of_def
  allNotUndefined_def call_async_def run_pending_def readdirSync_def statSync_def
  fs_resolve_def isFile_def str_def path_join_def join_segments_def normalize_def
  render_def normalizeString_def normalize_step_def destructure_def
  put_mkdir_def put_mv_def put_cp_def put_rm_def put_zip_def put_unzip_def
  put_download_job_def get_jobs_def next_request_def

lemmas sample_defs =
  env0_def state0_def state1_def fs0_def fs1_def get_request_def put_request_def params_def

section \<open>The generated file name\<close>

lemma split_slash_not_Nil: "split_slash p \<noteq> []"
  by (induction p) (auto split: list.splits)

lemma split_slash_append:
  "split_slash (a @ CHR ''/'' # b) = split_slash a @ split_slash b"
proof (induction a)
  case Nil
  show ?case by simp
next
  case (Cons c a)
  obtain s ss where "split_slash a = s # ss"
    using split_slash_not_Nil [of a] by (cases "split_slash a") auto
  with Cons show ?case by simp
qed

lemma split_slash_no_slash: "CHR ''/'' \<notin> set p \<Longrightarrow> split_slash p = [p]"
  by (induction p) auto

lemma last_component_no_slash:
  "CHR ''/'' \<notin> set p \<Longrightarrow> p \<noteq> [] \<Longrightarrow> last_component p = p"
  by (simp add: last_component_def split_slash_no_slash)

lemma from_last_dot_append:
  assumes "CHR ''.'' \<notin> set e"
  shows "from_last_dot (x @ CHR ''.'' # e) = CHR ''.'' # e"
proof -
  have "takeWhile (\<lambda>c. c \<noteq> CHR ''.'') (rev e @ CHR ''.'' # rev x)
          = takeWhile (\<lambda>c. c \<noteq> CHR ''.'') (rev e)"
    by (rule takeWhile_tail) simp
  also have "\<dots> = rev e"
    using assms by (auto simp: takeWhile_eq_all_conv)
  finally show ?thesis
    by (simp add: from_last_dot_def)
qed

lemma extname_base_dot_ext:
  assumes "x \<noteq> []" "e \<noteq> []" "CHR ''/'' \<notin> set x" "CHR ''/'' \<notin> set e" "CHR ''.'' \<notin> set e"
  shows "extname (x @ CHR ''.'' # e) = CHR ''.'' # e"
proof -
  have "last_component (x @ CHR ''.'' # e) = x @ CHR ''.'' # e"
    using assms by (intro last_component_no_slash) auto
  moreover have "x @ CHR ''.'' # e \<noteq> ''..''"
  proof
    assume "x @ CHR ''.'' # e = ''..''"
    then have "length (x @ CHR ''.'' # e) = 2" by simp
    with assms(1,2) show False by (cases x; cases e) auto
  qed
  ultimately show ?thesis
    using assms by (simp add: extname_def Let_def from_last_dot_append)
qed

lemma digit_value_digit_char: "n < 10 \<Longrightarrow> digit_value (digit_char n) = n"
proof -
  have "\<forall>k<10. digit_value (digit_char k) = k"
    by (simp add: digit_value_def digit_char_def numeral_eq_Suc All_less_Suc)
  then show "n < 10 \<Longrightarrow> digit_value (digit_char n) = n"
    by simp
qed

lemma digit_char_is_digit: "n < 10 \<Longrightarrow> digit_char n \<in> set ''0123456789''"
  unfolding digit_char_def by (rule nth_mem) simp

lemma decimal_value_snoc:
  "decimal_value (ds @ [c]) = 10 * decimal_value ds + digit_value c"
  by (simp add: decimal_value_def)

lemma decimal_value_show_nat: "decimal_value (show_nat n) = n"
proof (induction n rule: show_nat.induct)
  case (1 n)
  show ?case
  proof (cases "n < 10")
    case True
    then show ?thesis
      by (simp add: decimal_value_def digit_value_digit_char)
  next
    case False
    with 1 have "decimal_value (show_nat (n div 10)) = n div 10" by simp
    with False show ?thesis
      by (subst show_nat.simps) (simp add: decimal_value_snoc digit_value_digit_char)
  qed
qed

lemma show_nat_digits: "set (show_nat n) \<subseteq> set ''0123456789''"
proof (induction n rule: show_nat.induct)
  case (1 n)
  show ?case
  proof (cases "n < 10")
    case True
    with digit_char_is_digit [of n] show ?thesis by simp
  next
    case False
    with 1 have "set (show_nat (n div 10)) \<subseteq> set ''0123456789''" by simp
    moreover have "digit_char (n mod 10) \<in> set ''0123456789''"
      by (rule digit_char_is_digit) simp
    ultimately show ?thesis
      using False by (subst show_nat.simps) simp
  qed
qed

lemma last_component_last:
  "last_component p
     = (if filter (\<lambda>s. s \<noteq> []) (split_slash p) = [] then []
        else last (filter (\<lambda>s. s \<noteq> []) (split_slash p)))"
  by (simp add: last_component_def split: list.splits)

lemma last_component_after_slash:
  assumes "r \<noteq> []" "CHR ''/'' \<notin> set r"
  shows "last_component (d @ CHR ''/'' # r) = r"
  using assms
  by (simp add: last_component_last split_slash_append split_slash_no_slash)

lemma extname_dir_base_dot_ext:
  assumes "x \<noteq> []" "e \<noteq> []" "CHR ''/'' \<notin> set x" "CHR ''/'' \<notin> set e" "CHR ''.'' \<notin> set e"
  shows "extname (d @ CHR ''/'' # x @ CHR ''.'' # e) = CHR ''.'' # e"
proof -
  have "last_component (d @ CHR ''/'' # x @ CHR ''.'' # e) = x @ CHR ''.'' # e"
    using assms by (intro last_component_after_slash) auto
  moreover have "x @ CHR ''.'' # e \<noteq> ''..''"
  proof
    assume "x @ CHR ''.'' # e = ''..''"
    then have "length (x @ CHR ''.'' # e) = 2" by simp
    with assms(1,2) show False by (cases x; cases e) auto
  qed
  ultimately show ?thesis
    using assms by (simp add: extname_def Let_def from_last_dot_append)
qed

lemma extname_no_dot:
  assumes "x \<noteq> []" "CHR ''/'' \<notin> set x" "CHR ''.'' \<notin> set x"
  shows "extname x = []" "extname (d @ CHR ''/'' # x) = []"
  using assms by (simp_all add: extname_def last_component_no_slash last_component_after_slash)

lemma not_in_stored_name:
  assumes "c \<in> set b" "c \<notin> set (extname originalname)" "c \<notin> set ''0123456789''"
  shows "\<not> (\<exists>ps ss. filename originalname now = ps @ b @ ss)"
proof
  assume "\<exists>ps ss. filename originalname now = ps @ b @ ss"
  then obtain ps ss where "filename originalname now = ps @ b @ ss" by blast
  then have "set (filename originalname now) = set ps \<union> set b \<union> set ss"
    by (simp add: Un_assoc)
  with assms(1) have "c \<in> set (extname originalname) \<union> set (show_nat now)"
    by (auto simp: filename_def)
  with assms(2,3) show_nat_digits [of now] show False by blast
qed

text \<open>
  Claim C10, amended. A file that goes through the disk storage is stored under the
  extension of its original name followed by the decimal digits of the current
  timestamp, and by nothing else: the digits denote the timestamp itself; for an
  original name \<open>x.e\<close>, with or without a directory in front, the stored name is \<open>.e\<close>
  followed by the timestamp; for a name without a dot it is the timestamp alone. The
  base name takes no part in it, so two files that differ in their base names only,
  uploaded at the same timestamp, get the same stored name. A text with a character that
  is neither a decimal digit nor a character of the extension, a base name for one, does
  not occur in the stored name.
\<close>

theorem stored_name_is_extension_then_timestamp:
  "filename originalname now = extname originalname @ show_nat now
   \<and> set (show_nat now) \<subseteq> set ''0123456789''
   \<and> decimal_value (show_nat now) = now
   \<and> (x \<noteq> [] \<and> y \<noteq> [] \<and> e \<noteq> []
        \<and> CHR ''/'' \<notin> set x \<and> CHR ''/'' \<notin> set y \<and> CHR ''/'' \<notin> set e \<and> CHR ''.'' \<notin> set e \<longrightarrow>
        filename (x @ ''.'' @ e) now = ''.'' @ e @ show_nat now
      \<and> filename (d @ ''/'' @ x @ ''.'' @ e) now = ''.'' @ e @ show_nat now
      \<and> filename (y @ ''.'' @ e) now = filename (x @ ''.'' @ e) now)
   \<and> (x \<noteq> [] \<and> CHR ''/'' \<notin> set x \<and> CHR ''.'' \<notin> set x \<longrightarrow>
        filename x now = show_nat now \<and> filename (d @ ''/'' @ x) now = show_nat now)
   \<and> (c \<in> set b \<and> c \<notin> set (extname originalname) \<and> c \<notin> set ''0123456789'' \<longrightarrow>
        \<not> (\<exists>ps ss. filename originalname now = ps @ b @ ss))"
proof (intro conjI impI)
  show "filename originalname now = extname originalname @ show_nat now"
    by (simp add: filename_def)
  show "set (show_nat now) \<subseteq> set ''0123456789''"
    by (rule show_nat_digits)
  show "decimal_value (show_nat now) = now"
    by (rule decimal_value_show_nat)
next
  assume h: "x \<noteq> [] \<and> y \<noteq> [] \<and> e \<noteq> []
        \<and> CHR ''/'' \<notin> set x \<and> CHR ''/'' \<notin> set y \<and> CHR ''/'' \<notin> set e \<and> CHR ''.'' \<notin> set e"
  then show "filename (x @ ''.'' @ e) now = ''.'' @ e @ show_nat now"
    by (simp add: filename_def extname_base_dot_ext)
  from h show "filename (d @ ''/'' @ x @ ''.'' @ e) now = ''.'' @ e @ show_nat now"
    by (simp add: filename_def extname_dir_base_dot_ext)
  from h show "filename (y @ ''.'' @ e) now = filename (x @ ''.'' @ e) now"
    by (simp add: filename_def extname_base_dot_ext)
next
  assume h: "x \<noteq> [] \<and> CHR ''/'' \<notin> set x \<and> CHR ''.'' \<notin> set x"
  then show "filename x now = show_nat now"
    by (simp add: filename_def extname_no_dot)
  from h show "filename (d @ ''/'' @ x) now = show_nat now"
    by (simp add: filename_def extname_no_dot)
next
  assume "c \<in> set b \<and> c \<notin> set (extname originalname) \<and> c \<notin> set ''0123456789''"
  then show "\<not> (\<exists>ps ss. filename originalname now = ps @ b @ ss)"
    by (intro not_in_stored_name) auto
qed

theorem stored_name_witness:
  "filename ''report.txt'' 1700000000000 = ''.txt1700000000000''
   \<and> filename ''report.txt'' 1700000000001 = ''.txt1700000000001''
   \<and> filename ''uploads/report.txt'' 1700000000000 = ''.txt1700000000000''
   \<and> filename ''invoice.txt'' 1700000000000 = filename ''report.txt'' 1700000000000
   \<and> filename ''README'' 1700000000000 = ''1700000000000''
   \<and> filename ''v1.2/README'' 1700000000000 = ''1700000000000''
   \<and> decimal_value ''1700000000000'' = 1700000000000
   \<and> \<not> (\<exists>ps ss. filename ''report.txt'' 1700000000000 = ps @ ''report'' @ ss)"
proof -
  have sn: "show_nat 1700000000000 = ''1700000000000''"
    "show_nat 1700000000001 = ''1700000000001''"
    by (simp_all add: digit_char_def)
  have ex: "extname ''report.txt'' = ''.txt''"
    by (simp add: extname_def last_component_def from_last_dot_def)
  note t = stored_name_is_extension_then_timestamp
  from t [of "''report.txt''" 1700000000000 "''report''" "''invoice''" "''txt''" "''uploads''"
            "CHR ''r''" "''report''"]
  have a: "filename ''report.txt'' 1700000000000 = ''.txt1700000000000''"
    "filename ''uploads/report.txt'' 1700000000000 = ''.txt1700000000000''"
    "filename ''invoice.txt'' 1700000000000 = filename ''report.txt'' 1700000000000"
    "decimal_value ''1700000000000'' = 1700000000000"
    by (simp_all add: sn ex digit_char_def)
  have pre: "CHR ''r'' \<in> set ''report'' \<and> CHR ''r'' \<notin> set (extname ''report.txt'')
          \<and> CHR ''r'' \<notin> set ''0123456789''"
    by (simp add: ex)
  have d: "\<not> (\<exists>ps ss. filename ''report.txt'' 1700000000000 = ps @ ''report'' @ ss)"
    by (rule mp [OF t [of "''report.txt''" 1700000000000 "''report''" "''invoice''" "''txt''"
              "''uploads''" "CHR ''r''" "''report''",
            THEN conjunct2, THEN conjunct2, THEN conjunct2, THEN conjunct2, THEN conjunct2]
          pre])
  from t [of "''report.txt''" 1700000000001 "''report''" "''invoice''" "''txt''" "''uploads''"
            "CHR ''r''" "''report''"]
  have b: "filename ''report.txt'' 1700000000001 = ''.txt1700000000001''"
    by (simp add: sn ex digit_char_def)
  from t [of "''README''" 1700000000000 "''README''" "''invoice''" "''txt''" "''v1.2''"
            "CHR ''r''" "''report''"]
  have c: "filename ''README'' 1700000000000 = ''1700000000000''"
    "filename ''v1.2/README'' 1700000000000 = ''1700000000000''"
    by (simp_all add: sn digit_char_def extname_def last_component_def from_last_dot_def)
  from a b c d show ?thesis by blast
qed

text \<open>
  Claim C10 as stated fails: the base name can occur in the stored name all the same.
  The file \<open>txt.txt\<close>, with base name \<open>txt\<close>, is stored as \<open>.txt1700000000000\<close>, and the
  file \<open>1.png\<close>, with base name \<open>1\<close>, as \<open>.png1700000000000\<close>.
\<close>

theorem base_name_can_occur_in_stored_name:
  "filename ''txt.txt'' 1700000000000 = ''.'' @ ''txt'' @ ''1700000000000''
   \<and> filename ''1.png'' 1700000000000 = ''.png'' @ ''1'' @ ''700000000000''"
  by (simp add: filename_def extname_def last_component_def from_last_dot_def digit_char_def)

section \<open>The bucket list of a project\<close>


lemma checkProjectPerm_member:
  "projects E p = Some pr \<Longrightarrow> ownerId pr = u \<or> u \<in> set (collaborators pr) \<Longrightarrow>
     checkProjectPerm E (Some p) u s = (Inr True, s)"
  by (auto simp: checkProjectPerm_def bind_def ret_def data_of_def)

lemma checkProjectPerm_non_member:
  "projects E p = Some pr \<Longrightarrow> ownerId pr \<noteq> u \<Longrightarrow> u \<notin> set (collaborators pr) \<Longrightarrow>
   sent s = None \<Longrightarrow>
     checkProjectPerm E (Some p) u s
       = (Inr False,
          s\<lparr>sent := Some (Forbidden, Message (''Accessing to project ['' @ p @ ''] does not allow''))\<rparr>)"
  by (simp add: checkProjectPerm_def bind_def ret_def data_of_def send_def)



section \<open>Path resolution\<close>

lemma steps_inside:
  "stays_inside_from (length ds) segs \<Longrightarrow> ''..'' \<notin> set ds \<Longrightarrow>
     foldl (normalize_step allow) (ds @ res) segs
       = foldl (normalize_step True) ds segs @ res"
proof (induction segs arbitrary: ds)
  case Nil
  show ?case by simp
next
  case (Cons seg segs)
  consider (skip) "seg = [] \<or> seg = ''.''"
    | (up) "seg = ''..''"
    | (name) "seg \<noteq> []" "seg \<noteq> ''.''" "seg \<noteq> ''..''"
    by blast
  then show ?case
  proof cases
    case skip
    with Cons show ?thesis
      by (auto simp: normalize_step_def)
  next
    case up
    with Cons.prems obtain t ds' where ds: "ds = t # ds'" and t: "t \<noteq> ''..''"
      by (cases ds) auto
    from up Cons.prems ds have "stays_inside_from (length ds') segs" "''..'' \<notin> set ds'"
      by auto
    from Cons.IH [OF this] up ds t show ?thesis
      by (simp add: normalize_step_def)
  next
    case name
    with Cons.prems have "stays_inside_from (length (seg # ds)) segs" "''..'' \<notin> set (seg # ds)"
      by auto
    from Cons.IH [OF this] name show ?thesis
      by (simp add: normalize_step_def)
  qed
qed

lemma normalizeString_append_inside:
  assumes "stays_inside_from 0 B"
  shows "normalizeString allow (A @ B) = normalizeString allow A @ normalizeString True B"
proof -
  have "foldl (normalize_step allow) ([] @ foldl (normalize_step allow) [] A) B
          = foldl (normalize_step True) [] B @ foldl (normalize_step allow) [] A"
    by (rule steps_inside) (use assms in simp_all)
  then show ?thesis
    by (simp add: normalizeString_def)
qed

lemma join_segments_inside:
  assumes "stays_inside d"
  shows "join_segments [site, bid, d]
           = join_segments [site, bid] @ normalizeString True (split_slash d)"
proof -
  have in0: "stays_inside_from 0 (split_slash d)"
    using assms by (simp add: stays_inside_def)
  have a: "\<And>allow A. normalizeString allow (A @ split_slash d)
             = normalizeString allow A @ normalizeString True (split_slash d)"
    by (rule normalizeString_append_inside [OF in0])
  have a2: "\<And>allow A A'. normalizeString allow (A @ A' @ split_slash d)
             = normalizeString allow (A @ A') @ normalizeString True (split_slash d)"
    using a [of _ "_ @ _"] by simp
  have b: "normalizeString (hd d \<noteq> CHR ''/'') (split_slash d)
             = normalizeString True (split_slash d)"
    using a [of "hd d \<noteq> CHR ''/''" "[]"] by (simp add: normalizeString_def)
  have e: "normalizeString True [[]] = []"
    by (simp add: normalizeString_def normalize_step_def)
  show ?thesis
  proof (cases "d = []")
    case True
    then show ?thesis
      by (cases "site = []"; cases "bid = []") (simp_all add: join_segments_def e)
  next
    case False
    then show ?thesis
      by (cases "site = []"; cases "bid = []")
         (simp_all add: join_segments_def split_slash_append a a2 b hd_append)
  qed
qed


lemma path_join_render:
  assumes "site \<noteq> []"
  shows "path_join [site, bid, d]
           = render (hd site = CHR ''/'') (last (site @ bid @ d) = CHR ''/'')
               (join_segments [site, bid, d])"
  using assms
  by (cases "bid = []"; cases "d = []")
     (simp_all add: path_join_def join_segments_def normalize_def Let_def hd_append)

lemma trace_send: "trace (snd (send c m s)) = trace s"
  by (simp add: send_def split: option.splits)

lemma trace_checkProjectPerm: "trace (snd (checkProjectPerm E pid u s)) = trace s"
  by (auto simp: checkProjectPerm_def bind_def throw_def ret_def data_of_def send_def
           split: option.splits)

lemma trace_run_pending:
  "trace (run_pending now (checkProjectPerm E pid u) s) = trace s"
  by (simp add: run_pending_def trace_checkProjectPerm)

lemma trace_statSync: "trace (snd (statSync E p s)) = trace s @ [StatCall p]"
  by (simp add: statSync_def Let_def split: option.splits)

lemma keeps_bind:
  assumes m: "\<And>s. x \<in> set (trace s) \<Longrightarrow> x \<in> set (trace (snd (m s)))"
    and f: "\<And>v s. x \<in> set (trace s) \<Longrightarrow> x \<in> set (trace (snd (f v s)))"
    and x: "x \<in> set (trace s)"
  shows "x \<in> set (trace (snd (bind m f s)))"
proof (cases "m s")
  case (Pair r s')
  with m [OF x] have s': "x \<in> set (trace s')" by simp
  show ?thesis
  proof (cases r)
    case (Inl e)
    with Pair s' show ?thesis by (simp add: bind_def)
  next
    case (Inr v)
    with Pair f [OF s', of v] show ?thesis by (simp add: bind_def)
  qed
qed

lemma keeps_try_catch:
  assumes m: "x \<in> set (trace (snd (m s)))"
    and h: "\<And>e s. x \<in> set (trace s) \<Longrightarrow> x \<in> set (trace (snd (h e s)))"
  shows "x \<in> set (trace (snd (try_catch m h s)))"
proof (cases "m s")
  case (Pair r s')
  with m have s': "x \<in> set (trace s')" by simp
  show ?thesis
  proof (cases r)
    case (Inl e)
    with Pair h [OF s', of e] show ?thesis by (simp add: try_catch_def)
  next
    case (Inr v)
    with Pair s' show ?thesis by (simp add: try_catch_def)
  qed
qed

lemma keeps_stat:
  "x \<in> set (trace s) \<Longrightarrow>
   x \<in> set (trace (snd (bind (statSync E f) (\<lambda>st. ret (isFile st)) s)))"
  by (rule keeps_bind) (simp_all add: trace_statSync ret_def)

lemma keeps_filter_stat:
  "x \<in> set (trace s) \<Longrightarrow>
   x \<in> set (trace (snd (filter_io (\<lambda>f. bind (statSync E f) (\<lambda>st. ret (isFile st))) items s)))"
proof (induction items arbitrary: s)
  case Nil
  then show ?case by (simp add: ret_def)
next
  case (Cons f fs)
  show ?case
    unfolding filter_io.simps
  proof (rule keeps_bind [OF _ _ Cons.prems])
    fix s :: state assume "x \<in> set (trace s)"
    then show "x \<in> set (trace (snd (bind (statSync E f) (\<lambda>st. ret (isFile st)) s)))"
      by (rule keeps_stat)
  next
    fix keep and s :: state assume xs: "x \<in> set (trace s)"
    show "x \<in> set (trace (snd (bind
        (filter_io (\<lambda>f. bind (statSync E f) (\<lambda>st. ret (isFile st))) fs)
        (\<lambda>rest. ret (if keep then f # rest else rest)) s)))"
      by (rule keeps_bind [OF Cons.IH _ xs]) (simp_all add: ret_def)
  qed
qed

lemma readdirSync_traced:
  "Readdir p \<in> set (trace (snd (readdirSync E p s)))"
  by (simp add: readdirSync_def Let_def split: option.splits node.splits)

lemma bind_ret: "bind (ret v) f = f v"
  by (rule ext) (simp add: bind_def ret_def)

lemma bind_Inr: "m s = (Inr v, s') \<Longrightarrow> bind m f s = f v s'"
  by (simp add: bind_def)

lemma bind_Inl: "m s = (Inl e, s') \<Longrightarrow> bind m f s = (Inl e, s')"
  by (simp add: bind_def)

lemma trace_list_directory:
  assumes "bucketDocs E b = Some bk" "isPublic bk"
  shows "Readdir (path_join [bucketSite E, b, d]) \<in> set (trace (snd (list_directory E b d s)))"
proof -
  let ?p = "path_join [bucketSite E, b, d]"
  let ?stat = "\<lambda>f. bind (statSync E f) (\<lambda>st. ret (isFile st))"
  let ?rest = "\<lambda>items. bind (filter_io ?stat items)
      (\<lambda>files. let folders = filter (\<lambda>f. f \<notin> set files) items
                in send OK (Listing files folders))"
  have ld: "list_directory E b d s = bind (readdirSync E ?p) ?rest s"
    using assms by (simp add: list_directory_def data_of_def bind_ret Let_def)
  obtain r s' where rd: "readdirSync E ?p s = (r, s')"
    by (cases "readdirSync E ?p s")
  with readdirSync_traced [of ?p E s] have s': "Readdir ?p \<in> set (trace s')" by simp
  have rest: "\<And>items. Readdir ?p \<in> set (trace (snd (?rest items s')))"
    by (rule keeps_bind [OF keeps_filter_stat _ s']) (simp_all add: Let_def trace_send)
  show ?thesis
  proof (cases r)
    case (Inl e)
    with rd have "list_directory E b d s = (Inl e, s')"
      unfolding ld by (simp add: bind_Inl)
    with s' show ?thesis by simp
  next
    case (Inr items)
    with rd have "list_directory E b d s = ?rest items s'"
      unfolding ld by (simp add: bind_Inr)
    with rest [of items] show ?thesis by simp
  qed
qed

lemma get_root_reads_joined_path:
  assumes "query req ''pid'' = Some p" "query req ''bid'' = Some b" "query req ''d'' = Some d"
    and "bucketDocs E b = Some bk" "isPublic bk"
  shows "Readdir (path_join [bucketSite E, b, d]) \<in> set (trace (snd (get_root E sch req s)))"
proof -
  let ?s1 = "run_pending (sch = PermFirst) (checkProjectPerm E (Some p) (uid req)) s"
  have "Readdir (path_join [bucketSite E, b, d])
          \<in> set (trace (snd (try_catch (list_directory E b d)
                 (\<lambda>error. send InternalServerError (Message ''Internal Server Error'')) ?s1)))"
    by (rule keeps_try_catch) (simp_all add: trace_list_directory [OF assms(4,5)] trace_send)
  then show ?thesis
    using assms(1-3)
    by (simp add: get_root_def allNotUndefined_def call_async_def str_def Let_def
          trace_run_pending case_prod_beta)
qed

lemma statSync_traced: "StatCall p \<in> set (trace (snd (statSync E p s)))"
  by (simp add: trace_statSync)

lemma trace_read_metadata:
  assumes "bucketDocs E b = Some bk" "isPublic bk"
  shows "StatCall (path_join [bucketSite E, b, f]) \<in> set (trace (snd (read_metadata E b f s)))"
proof -
  let ?p = "path_join [bucketSite E, b, f]"
  have rm: "read_metadata E b f s
              = bind (statSync E ?p) (\<lambda>stat. send OK (StatBody stat)) s"
    using assms by (simp add: read_metadata_def data_of_def bind_ret Let_def)
  obtain r s' where st: "statSync E ?p s = (r, s')"
    by (cases "statSync E ?p s")
  with statSync_traced [of ?p E s] have s': "StatCall ?p \<in> set (trace s')" by simp
  show ?thesis
  proof (cases r)
    case (Inl e)
    with st s' show ?thesis unfolding rm by (simp add: bind_Inl)
  next
    case (Inr n)
    with st s' show ?thesis unfolding rm by (simp add: bind_Inr trace_send)
  qed
qed

lemma get_metadata_stats_joined_path:
  assumes "query req ''pid'' = Some p" "query req ''bid'' = Some b" "query req ''f'' = Some f"
    and "bucketDocs E b = Some bk" "isPublic bk"
  shows "StatCall (path_join [bucketSite E, b, f])
           \<in> set (trace (snd (get_metadata E sch req s)))"
proof -
  let ?s1 = "run_pending (sch = PermFirst) (checkProjectPerm E (Some p) (uid req)) s"
  have "StatCall (path_join [bucketSite E, b, f])
          \<in> set (trace (snd (try_catch (read_metadata E b f)
                 (\<lambda>error. send InternalServerError (ErrorFields error)) ?s1)))"
    by (rule keeps_try_catch) (simp_all add: trace_read_metadata [OF assms(4,5)] trace_send)
  then show ?thesis
    using assms(1-3)
    by (simp add: get_metadata_def allNotUndefined_def call_async_def str_def Let_def
          trace_run_pending case_prod_beta)
qed

text \<open>
  Claim C2, amended. Path resolution is \<open>path.join(Config.bucketSite, bid, d)\<close> and nothing
  more: no path is rejected, and for a public bucket the listing handler reads the
  directory, and the metadata handler the file, at whatever path the join yields. For a
  logical path fully inside the root the segments of the result are those of the bucket
  root followed by the normalised segments of the path, and the result is absolute exactly
  when \<open>Config.bucketSite\<close> is.
\<close>

theorem resolve_is_plain_join:
  assumes "query req ''pid'' = Some p" "query req ''bid'' = Some b"
    and "query req ''d'' = Some d" "query req ''f'' = Some d"
    and "bucketDocs E b = Some bk" "isPublic bk"
  shows "Readdir (path_join [bucketSite E, b, d]) \<in> set (trace (snd (get_root E sch req s)))
       \<and> StatCall (path_join [bucketSite E, b, d])
            \<in> set (trace (snd (get_metadata E sch req s)))
       \<and> (stays_inside d \<longrightarrow>
            join_segments [bucketSite E, b, d]
              = join_segments [bucketSite E, b] @ normalizeString True (split_slash d))
       \<and> (bucketSite E \<noteq> [] \<longrightarrow>
            path_join [bucketSite E, b, d]
              = render (hd (bucketSite E) = CHR ''/'')
                  (last (bucketSite E @ b @ d) = CHR ''/'')
                  (join_segments [bucketSite E, b, d]))"
  using get_root_reads_joined_path [OF assms(1,2,3,5,6)]
    get_metadata_stats_joined_path [OF assms(1,2,4,5,6)]
    join_segments_inside path_join_render
  by simp

theorem resolve_witness:
  "Readdir ''/srv/buckets/b1/sub''
     \<in> set (trace (snd (get_root env0 HandlerFirst
         (get_request ''alice''
            [(''pid'', ''p1''), (''bid'', ''b1''), (''d'', ''x/../sub''), (''f'', ''x/../sub'')])
         state0)))
   \<and> StatCall ''/srv/buckets/b1/sub''
     \<in> set (trace (snd (get_metadata env0 HandlerFirst
         (get_request ''alice''
            [(''pid'', ''p1''), (''bid'', ''b1''), (''d'', ''x/../sub''), (''f'', ''x/../sub'')])
         state0)))
   \<and> stays_inside ''x/../sub''
   \<and> join_segments [''/srv/buckets'', ''b1'', ''x/../sub''] = [''srv'', ''buckets'', ''b1'', ''sub'']
   \<and> join_segments [''/srv/buckets'', ''b1''] = [''srv'', ''buckets'', ''b1'']
   \<and> path_join [''/srv/buckets'', ''b1'', ''x/../sub''] = ''/srv/buckets/b1/sub''"
proof -
  let ?req = "get_request ''alice''
            [(''pid'', ''p1''), (''bid'', ''b1''), (''d'', ''x/../sub''), (''f'', ''x/../sub'')]"
  have q: "query ?req ''pid'' = Some ''p1''" "query ?req ''bid'' = Some ''b1''"
    "query ?req ''d'' = Some ''x/../sub''" "query ?req ''f'' = Some ''x/../sub''"
    by (simp_all add: get_request_def params_def)
  have b: "bucketDocs env0 ''b1'' = Some \<lparr>isPublic = True\<rparr>" "isPublic \<lparr>isPublic = True\<rparr>"
    by (simp_all add: env0_def)
  have i: "stays_inside ''x/../sub''"
    by (simp add: stays_inside_def)
  have site: "bucketSite env0 = ''/srv/buckets''"
    by (simp add: env0_def)
  have n: "join_segments [''/srv/buckets'', ''b1'', ''x/../sub''] = [''srv'', ''buckets'', ''b1'', ''sub'']"
    "join_segments [''/srv/buckets'', ''b1''] = [''srv'', ''buckets'', ''b1'']"
    "path_join [''/srv/buckets'', ''b1'', ''x/../sub''] = ''/srv/buckets/b1/sub''"
    by (simp_all add: join_segments_def path_join_def normalize_def render_def
          normalizeString_def normalize_step_def)
  from resolve_is_plain_join [OF q b, of HandlerFirst state0]
  show ?thesis
    by (simp add: site n i render_def normalizeString_def normalize_step_def)
qed

text \<open>
  Claim C2 as stated fails: through the public bucket \<open>b1\<close> the directory parameter
  \<open>../b2\<close> resolves, without any error, to the directory of the private bucket \<open>b2\<close>,
  which the listing handler reads; the metadata handler answers for a file in it.
\<close>

theorem traversal_leaves_bucket_root:
  "\<not> stays_inside ''../b2''
   \<and> path_join [''/srv/buckets'', ''b1''] = ''/srv/buckets/b1''
   \<and> path_join [''/srv/buckets'', ''b1'', ''../b2''] = ''/srv/buckets/b2''
   \<and> get_root env0 HandlerFirst
        (get_request ''alice'' [(''pid'', ''p1''), (''bid'', ''b1''), (''d'', ''../b2'')]) state1
      = (Inr (), state1\<lparr>sent := Some (InternalServerError, Message ''Internal Server Error''),
                         trace := [Readdir ''/srv/buckets/b2'', StatCall ''secret.txt'']\<rparr>)
   \<and> get_metadata env0 HandlerFirst
        (get_request ''alice''
           [(''pid'', ''p1''), (''bid'', ''b1''), (''f'', ''../b2/secret.txt'')]) state1
      = (Inr (), state1\<lparr>sent := Some (OK, StatBody File),
                         trace := [StatCall ''/srv/buckets/b2/secret.txt'']\<rparr>)"
  by (simp add: run_defs sample_defs stays_inside_def)

section \<open>Requests by users outside the project\<close>

text \<open>
  Claim C1 at a failing input. Mallory is neither owner nor collaborator of \<open>p1\<close>, and the
  permission check itself resolves to \<open>false\<close> after sending \<open>Forbidden\<close>. The handlers
  test the promise instead of its value, so they go on: the listing handler reads the
  bucket directory and the metadata handler stats the file; when the handler's own read
  is answered first, Mallory receives the listing, or the metadata, with \<open>OK\<close>.
\<close>

theorem non_member_request_reads_bucket:
  "checkProjectPerm env0 (Some ''p1'') ''mallory'' state1
     = (Inr False,
        state1\<lparr>sent := Some (Forbidden, Message ''Accessing to project [p1] does not allow'')\<rparr>)
   \<and> get_root env0 PermFirst
        (get_request ''mallory'' [(''pid'', ''p1''), (''bid'', ''b1''), (''d'', ''/'')]) state1
     = (Inl ERR_HTTP_HEADERS_SENT,
        state1\<lparr>sent := Some (Forbidden, Message ''Accessing to project [p1] does not allow''),
               trace := [Readdir ''/srv/buckets/b1/'', StatCall ''a.txt'', StatCall ''sub'']\<rparr>)
   \<and> get_root env0 HandlerFirst
        (get_request ''mallory'' [(''pid'', ''p1''), (''bid'', ''b1''), (''d'', ''/'')]) state1
     = (Inr (),
        state1\<lparr>sent := Some (OK, Listing [''sub''] [''a.txt'']),
               trace := [Readdir ''/srv/buckets/b1/'', StatCall ''a.txt'', StatCall ''sub'']\<rparr>)
   \<and> get_metadata env0 PermFirst
        (get_request ''mallory'' [(''pid'', ''p1''), (''bid'', ''b1''), (''f'', ''a.txt'')]) state1
     = (Inl ERR_HTTP_HEADERS_SENT,
        state1\<lparr>sent := Some (Forbidden, Message ''Accessing to project [p1] does not allow''),
               trace := [StatCall ''/srv/buckets/b1/a.txt'']\<rparr>)
   \<and> get_metadata env0 HandlerFirst
        (get_request ''mallory'' [(''pid'', ''p1''), (''bid'', ''b1''), (''f'', ''a.txt'')]) state1
     = (Inr (),
        state1\<lparr>sent := Some (OK, StatBody File),
               trace := [StatCall ''/srv/buckets/b1/a.txt'']\<rparr>)"
  by (simp add: run_defs sample_defs)

section \<open>The listing\<close>

text \<open>
  Claim C3 at a failing input. The owner lists bucket \<open>b1\<close>, which holds the file
  \<open>a.txt\<close> and the folder \<open>sub\<close>. The handler stats the bare entry names, that is,
  relative to the working directory: where that directory has no such entries the
  request ends in an internal server error, and where it has a folder \<open>a.txt\<close> and a
  file \<open>sub\<close> the two entries of the bucket are reported the wrong way round. The
  metadata handler, asked for \<open>a.txt\<close> in the same bucket, stats the joined path and
  reports a file.
\<close>

theorem listing_stats_bare_names:
  "get_root env0 HandlerFirst
        (get_request ''alice'' [(''pid'', ''p1''), (''bid'', ''b1''), (''d'', ''/'')]) state0
     = (Inr (),
        state0\<lparr>sent := Some (InternalServerError, Message ''Internal Server Error''),
               trace := [Readdir ''/srv/buckets/b1/'', StatCall ''a.txt'']\<rparr>)
   \<and> get_root env0 HandlerFirst
        (get_request ''alice'' [(''pid'', ''p1''), (''bid'', ''b1''), (''d'', ''/'')]) state1
     = (Inr (),
        state1\<lparr>sent := Some (OK, Listing [''sub''] [''a.txt'']),
               trace := [Readdir ''/srv/buckets/b1/'', StatCall ''a.txt'', StatCall ''sub'']\<rparr>)
   \<and> fsys state1 ''/srv/buckets/b1/a.txt'' = Some File
   \<and> fsys state1 ''/srv/buckets/b1/sub'' = Some (Dir [])
   \<and> get_metadata env0 HandlerFirst
        (get_request ''alice'' [(''pid'', ''p1''), (''bid'', ''b1''), (''f'', ''a.txt'')]) state0
     = (Inr (),
        state0\<lparr>sent := Some (OK, StatBody File),
               trace := [StatCall ''/srv/buckets/b1/a.txt'']\<rparr>)"
  by (simp add: run_defs sample_defs)

section \<open>What a denied request is told\<close>

text \<open>
  Claim C4 as stated fails. To Mallory, who is not a member of \<open>p1\<close>, the private bucket
  \<open>b2\<close> and the missing bucket \<open>b3\<close> are answered differently when the handler's read is
  answered first (not found, with a message naming the bucket, against an internal
  server error); when the permission check is answered first the answer is \<open>Forbidden\<close>
  with a message naming the project, not a not-found signal.
\<close>

theorem private_and_missing_bucket_differ:
  "sent (snd (get_root env0 HandlerFirst
        (get_request ''mallory'' [(''pid'', ''p1''), (''bid'', ''b2''), (''d'', ''/'')]) state0))
     = Some (NotFound, Message ''Bucket [b2] is not public'')
   \<and> sent (snd (get_root env0 HandlerFirst
        (get_request ''mallory'' [(''pid'', ''p1''), (''bid'', ''b3''), (''d'', ''/'')]) state0))
     = Some (InternalServerError, Message ''Internal Server Error'')
   \<and> sent (snd (get_root env0 PermFirst
        (get_request ''mallory'' [(''pid'', ''p1''), (''bid'', ''b2''), (''d'', ''/'')]) state0))
     = Some (Forbidden, Message ''Accessing to project [p1] does not allow'')
   \<and> sent (snd (get_metadata env0 HandlerFirst
        (get_request ''mallory'' [(''pid'', ''p1''), (''bid'', ''b2''), (''f'', ''x'')]) state0))
     = Some (NotFound, Message ''Not Found'')
   \<and> sent (snd (get_metadata env0 HandlerFirst
        (get_request ''mallory'' [(''pid'', ''p1''), (''bid'', ''b3''), (''f'', ''x'')]) state0))
     = Some (InternalServerError, ErrorFields TypeError)"
  by (simp add: run_defs sample_defs)

text \<open>
  Claim C4, amended. The responses are not uniform and they name the resource: the
  permission check answers a user who is neither owner nor collaborator of an existing
  project with \<open>Forbidden\<close> and a message carrying the project id and resolves to
  \<open>false\<close>; for a member of the project, a private bucket is answered by the listing
  handler with \<open>NotFound\<close> and a message carrying the bucket id, and by the metadata
  handler with \<open>NotFound\<close> and the message \<open>Not Found\<close>.
\<close>

theorem denial_responses_name_the_resource:
  assumes "sent s = None" "projects E p = Some pr"
  shows "(ownerId pr \<noteq> u \<and> u \<notin> set (collaborators pr) \<longrightarrow>
            checkProjectPerm E (Some p) u s
              = (Inr False,
                 s\<lparr>sent := Some (Forbidden,
                     Message (''Accessing to project ['' @ p @ ''] does not allow''))\<rparr>))
       \<and> (query req ''pid'' = Some p \<and> query req ''bid'' = Some b \<and> query req ''d'' = Some d
            \<and> (ownerId pr = uid req \<or> uid req \<in> set (collaborators pr))
            \<and> bucketDocs E b = Some bk \<and> \<not> isPublic bk \<longrightarrow>
            get_root E sch req s
              = (Inr (),
                 s\<lparr>sent := Some (NotFound, Message (''Bucket ['' @ b @ ''] is not public''))\<rparr>))
       \<and> (query req ''pid'' = Some p \<and> query req ''bid'' = Some b \<and> query req ''f'' = Some f
            \<and> (ownerId pr = uid req \<or> uid req \<in> set (collaborators pr))
            \<and> bucketDocs E b = Some bk \<and> \<not> isPublic bk \<longrightarrow>
            get_metadata E sch req s
              = (Inr (), s\<lparr>sent := Some (NotFound, Message ''Not Found'')\<rparr>))"
proof (intro conjI impI)
  assume "ownerId pr \<noteq> u \<and> u \<notin> set (collaborators pr)"
  with assms show "checkProjectPerm E (Some p) u s
      = (Inr False,
         s\<lparr>sent := Some (Forbidden,
             Message (''Accessing to project ['' @ p @ ''] does not allow''))\<rparr>)"
    by (simp add: checkProjectPerm_non_member)
next
  assume h: "query req ''pid'' = Some p \<and> query req ''bid'' = Some b \<and> query req ''d'' = Some d
            \<and> (ownerId pr = uid req \<or> uid req \<in> set (collaborators pr))
            \<and> bucketDocs E b = Some bk \<and> \<not> isPublic bk"
  then have "\<And>s. checkProjectPerm E (Some p) (uid req) s = (Inr True, s)"
    using assms(2) by (intro checkProjectPerm_member) auto
  with h assms(1) show "get_root E sch req s
      = (Inr (), s\<lparr>sent := Some (NotFound, Message (''Bucket ['' @ b @ ''] is not public''))\<rparr>)"
    by (simp add: get_root_def allNotUndefined_def call_async_def run_pending_def str_def
          try_catch_def list_directory_def data_of_def bind_ret send_def Let_def)
next
  assume h: "query req ''pid'' = Some p \<and> query req ''bid'' = Some b \<and> query req ''f'' = Some f
            \<and> (ownerId pr = uid req \<or> uid req \<in> set (collaborators pr))
            \<and> bucketDocs E b = Some bk \<and> \<not> isPublic bk"
  then have "\<And>s. checkProjectPerm E (Some p) (uid req) s = (Inr True, s)"
    using assms(2) by (intro checkProjectPerm_member) auto
  with h assms(1) show "get_metadata E sch req s
      = (Inr (), s\<lparr>sent := Some (NotFound, Message ''Not Found'')\<rparr>)"
    by (simp add: get_metadata_def allNotUndefined_def call_async_def run_pending_def str_def
          try_catch_def read_metadata_def data_of_def bind_ret send_def Let_def)
qed

theorem denial_responses_witness:
  "checkProjectPerm env0 (Some ''p1'') ''mallory'' state0
     = (Inr False,
        state0\<lparr>sent := Some (Forbidden, Message ''Accessing to project [p1] does not allow'')\<rparr>)
   \<and> get_root env0 PermFirst
        (get_request ''bob''
           [(''pid'', ''p1''), (''bid'', ''b2''), (''d'', ''/''), (''f'', ''secret.txt'')]) state0
     = (Inr (), state0\<lparr>sent := Some (NotFound, Message ''Bucket [b2] is not public'')\<rparr>)
   \<and> get_metadata env0 PermFirst
        (get_request ''bob''
           [(''pid'', ''p1''), (''bid'', ''b2''), (''d'', ''/''), (''f'', ''secret.txt'')]) state0
     = (Inr (), state0\<lparr>sent := Some (NotFound, Message ''Not Found'')\<rparr>)"
proof -
  let ?req = "get_request ''bob''
           [(''pid'', ''p1''), (''bid'', ''b2''), (''d'', ''/''), (''f'', ''secret.txt'')]"
  let ?pr = "\<lparr>ownerId = ''alice'', collaborators = [''bob''], buckets = [''b1'', ''b2'']\<rparr>"
  have a: "sent state0 = None" "projects env0 ''p1'' = Some ?pr"
    by (simp_all add: state0_def env0_def)
  from denial_responses_name_the_resource
    [OF a, of "''mallory''" ?req "''b2''" "''/''" "\<lparr>isPublic = False\<rparr>" PermFirst "''secret.txt''"]
  show ?thesis
    by (simp add: get_request_def params_def env0_def)
qed

lemma destructure_Some: "destructure (Some b) s = (Inr (), s)"
  by (simp add: destructure_def ret_def)

section \<open>The routes without a body\<close>

text \<open>
  Claim C5, amended. For every job submission (zip, unzip, download-job) with a parsed
  request body the handler returns at once and leaves everything as it was: nothing is
  put on the job queue and no response, hence no job id, is sent.
\<close>

theorem job_routes_submit_nothing:
  assumes "reqBody req = Some b"
  shows "put_zip E req s = (Inr (), s)
       \<and> put_unzip E req s = (Inr (), s)
       \<and> put_download_job E req s = (Inr (), s)"
  using assms by (simp add: put_zip_def put_unzip_def put_download_job_def destructure_Some)

theorem job_routes_witness:
  "put_zip env0
      (put_request ''alice''
         [(''pid'', ''p1''), (''bid'', ''b1''), (''src'', ''sub''), (''des'', ''sub.zip'')]) state0
     = (Inr (), state0)
   \<and> put_unzip env0
      (put_request ''alice''
         [(''pid'', ''p1''), (''bid'', ''b1''), (''src'', ''sub''), (''des'', ''sub.zip'')]) state0
     = (Inr (), state0)
   \<and> put_download_job env0
      (put_request ''alice''
         [(''pid'', ''p1''), (''bid'', ''b1''), (''src'', ''sub''), (''des'', ''sub.zip'')]) state0
     = (Inr (), state0)"
  using job_routes_submit_nothing
    [of "put_request ''alice''
         [(''pid'', ''p1''), (''bid'', ''b1''), (''src'', ''sub''), (''des'', ''sub.zip'')]"
        "params [(''pid'', ''p1''), (''bid'', ''b1''), (''src'', ''sub''), (''des'', ''sub.zip'')]"
        env0 state0]
  by (simp add: put_request_def)

text \<open>
  Claim C5 as stated fails: a zip, an unzip and a download-job request with valid
  parameters end with no response sent and an empty job queue.
\<close>

theorem submit_returns_no_job_id:
  "sent (snd (put_zip env0
      (put_request ''alice''
         [(''pid'', ''p1''), (''bid'', ''b1''), (''src'', ''sub''), (''des'', ''sub.zip'')])
      state0)) = None
   \<and> bucketQueue (snd (put_zip env0
      (put_request ''alice''
         [(''pid'', ''p1''), (''bid'', ''b1''), (''src'', ''sub''), (''des'', ''sub.zip'')])
      state0)) = []
   \<and> sent (snd (put_unzip env0
      (put_request ''alice''
         [(''pid'', ''p1''), (''bid'', ''b1''), (''src'', ''sub.zip''), (''des'', ''out'')])
      state0)) = None
   \<and> sent (snd (put_download_job env0
      (put_request ''alice''
         [(''pid'', ''p1''), (''bid'', ''b1''), (''url'', ''http://example.org/f''),
          (''des'', ''f'')])
      state0)) = None"
  by (simp add: run_defs sample_defs)

text \<open>
  Claim C6, amended. Every call of mkdir, mv, cp or rm with a parsed request body runs to
  its end without waiting for anything and returns at once, but it sends neither a
  success nor a failure result and changes nothing, the file system included.
\<close>

theorem file_routes_send_no_result:
  assumes "reqBody req = Some b"
  shows "put_mkdir E req s = (Inr (), s)
       \<and> put_mv E req s = (Inr (), s)
       \<and> put_cp E req s = (Inr (), s)
       \<and> put_rm E req s = (Inr (), s)"
  using assms by (simp add: put_mkdir_def put_mv_def put_cp_def put_rm_def destructure_Some)

theorem file_routes_witness:
  "put_mkdir env0
      (put_request ''alice'' [(''pid'', ''p1''), (''bid'', ''b1''), (''dir'', ''new''), (''d'', ''/'')])
      state0 = (Inr (), state0)
   \<and> put_mv env0
      (put_request ''alice'' [(''pid'', ''p1''), (''bid'', ''b1''), (''dir'', ''new''), (''d'', ''/'')])
      state0 = (Inr (), state0)
   \<and> put_cp env0
      (put_request ''alice'' [(''pid'', ''p1''), (''bid'', ''b1''), (''dir'', ''new''), (''d'', ''/'')])
      state0 = (Inr (), state0)
   \<and> put_rm env0
      (put_request ''alice'' [(''pid'', ''p1''), (''bid'', ''b1''), (''dir'', ''new''), (''d'', ''/'')])
      state0 = (Inr (), state0)"
  using file_routes_send_no_result
    [of "put_request ''alice''
           [(''pid'', ''p1''), (''bid'', ''b1''), (''dir'', ''new''), (''d'', ''/'')]"
        "params [(''pid'', ''p1''), (''bid'', ''b1''), (''dir'', ''new''), (''d'', ''/'')]"
        env0 state0]
  by (simp add: put_request_def)

text \<open>
  Claim C6 as stated fails: after a mkdir request no response has been sent and the
  directory does not exist; mv, cp and rm requests get no response either.
\<close>

theorem mkdir_gives_no_result:
  "sent (snd (put_mkdir env0
      (put_request ''alice'' [(''pid'', ''p1''), (''bid'', ''b1''), (''dir'', ''new''), (''d'', ''/'')])
      state0)) = None
   \<and> fsys (snd (put_mkdir env0
      (put_request ''alice'' [(''pid'', ''p1''), (''bid'', ''b1''), (''dir'', ''new''), (''d'', ''/'')])
      state0)) ''/srv/buckets/b1/new'' = None
   \<and> sent (snd (put_mv env0
      (put_request ''alice''
         [(''pid'', ''p1''), (''bid'', ''b1''), (''src'', ''a.txt''), (''des'', ''b.txt'')])
      state0)) = None
   \<and> sent (snd (put_cp env0
      (put_request ''alice''
         [(''pid'', ''p1''), (''bid'', ''b1''), (''src'', ''a.txt''), (''des'', ''b.txt'')])
      state0)) = None
   \<and> sent (snd (put_rm env0
      (put_request ''alice'' [(''pid'', ''p1''), (''bid'', ''b1''), (''d'', ''nothing-here'')])
      state0)) = None"
  by (simp add: run_defs sample_defs)

text \<open>
  Claim C7, amended. Calling rm twice in succession on the same path changes nothing
  either time: both calls return without a response, and the file system after the
  second call is the one before the first, so no sibling entry (and no other entry) is
  modified.
\<close>

theorem rm_twice_changes_nothing:
  assumes "reqBody req = Some b"
  shows "put_rm E req s = (Inr (), s)
       \<and> put_rm E req (next_request (snd (put_rm E req s))) = (Inr (), next_request s)
       \<and> fsys (snd (put_rm E req (next_request (snd (put_rm E req s))))) = fsys s"
  using assms by (simp add: put_rm_def destructure_Some next_request_def)

theorem rm_twice_witness:
  "put_rm env0
      (put_request ''alice'' [(''pid'', ''p1''), (''bid'', ''b1''), (''d'', ''a.txt'')]) state0
     = (Inr (), state0)
   \<and> fsys (snd (put_rm env0
        (put_request ''alice'' [(''pid'', ''p1''), (''bid'', ''b1''), (''d'', ''a.txt'')])
        (next_request (snd (put_rm env0
           (put_request ''alice'' [(''pid'', ''p1''), (''bid'', ''b1''), (''d'', ''a.txt'')])
           state0))))) = fsys state0"
proof -
  let ?req = "put_request ''alice'' [(''pid'', ''p1''), (''bid'', ''b1''), (''d'', ''a.txt'')]"
  have b: "reqBody ?req = Some (params [(''pid'', ''p1''), (''bid'', ''b1''), (''d'', ''a.txt'')])"
    by (simp add: put_request_def)
  from rm_twice_changes_nothing [OF b, of env0 state0] show ?thesis
    by blast
qed

text \<open>
  Claim C7 as stated fails: rm of the existing file \<open>a.txt\<close> sends no response (so not
  \<open>Succeeded\<close>) and leaves the file in place; the second call sends no response
  either (so not \<open>NotFound\<close>).
\<close>

theorem rm_answers_neither_succeeded_nor_not_found:
  "sent (snd (put_rm env0
      (put_request ''alice'' [(''pid'', ''p1''), (''bid'', ''b1''), (''d'', ''a.txt'')])
      state0)) = None
   \<and> fsys (snd (put_rm env0
      (put_request ''alice'' [(''pid'', ''p1''), (''bid'', ''b1''), (''d'', ''a.txt'')])
      state0)) ''/srv/buckets/b1/a.txt'' = Some File
   \<and> sent (snd (put_rm env0
        (put_request ''alice'' [(''pid'', ''p1''), (''bid'', ''b1''), (''d'', ''a.txt'')])
        (next_request (snd (put_rm env0
           (put_request ''alice'' [(''pid'', ''p1''), (''bid'', ''b1''), (''d'', ''a.txt'')])
           state0))))) = None"
  by (simp add: run_defs sample_defs)

section \<open>The job manager: states and visibility\<close>

lemma terminal_no_transition: "terminal st \<Longrightarrow> \<not> transition st st'"
  by (cases st; cases st') simp_all

lemma job_status_Some: "job_status j reg = Inr jb \<longleftrightarrow> j < length reg \<and> reg ! j = Some jb"
  by (auto simp: job_status_def split: option.splits)

text \<open>A job in a terminal state, or one evicted, is left as it is by every event.\<close>

lemma job_step_keeps_terminal:
  assumes "j < length reg" "reg ! j = Some jb \<and> terminal (jobState jb) \<or> reg ! j = None"
  shows "j < length (job_step reg ev)
       \<and> (job_step reg ev ! j = reg ! j \<or> job_step reg ev ! j = None)"
proof (cases ev)
  case (Submit b u operation ps)
  with assms show ?thesis
    by (simp add: submit_def nth_append)
next
  case (Worker k st)
  with assms show ?thesis
    by (cases "k = j")
       (auto simp: record_state_def job_status_def terminal_no_transition
             split: sum.splits option.splits if_splits)
next
  case (Cancel k)
  with assms show ?thesis
    by (cases "k = j")
       (auto simp: cancel_def job_status_def split: sum.splits option.splits if_splits)
next
  case (Evict k)
  with assms show ?thesis
    by (cases "k = j")
       (auto simp: evict_def job_status_def split: sum.splits option.splits if_splits)
qed

lemma run_events_keeps_terminal:
  assumes "j < length reg" "reg ! j = Some jb \<and> terminal (jobState jb) \<or> reg ! j = None"
  shows "j < length (run_events reg evs)
       \<and> (run_events reg evs ! j = reg ! j \<or> run_events reg evs ! j = None)"
  using assms
proof (induction evs arbitrary: reg)
  case Nil
  then show ?case by (simp add: run_events_def)
next
  case (Cons ev evs)
  from job_step_keeps_terminal [OF Cons.prems, of ev]
  have l: "j < length (job_step reg ev)"
    and s: "job_step reg ev ! j = reg ! j \<or> job_step reg ev ! j = None"
    by simp_all
  from s Cons.prems(2)
  have "job_step reg ev ! j = Some jb \<and> terminal (jobState jb) \<or> job_step reg ev ! j = None"
    by auto
  from Cons.IH [OF l this] s show ?case
    by (auto simp: run_events_def)
qed

lemma job_step_keeps_visible:
  assumes "job_status j reg = Inr jb" "\<not> terminal (jobState jb)"
  shows "job_status j (job_step reg ev) \<noteq> Inl JobNotFound"
proof -
  from assms(1) have j: "j < length reg" "reg ! j = Some jb"
    by (simp_all add: job_status_Some)
  show ?thesis
  proof (cases ev)
    case (Submit b u operation ps)
    with j show ?thesis
      by (simp add: submit_def job_status_def nth_append)
  next
    case (Worker k st)
    with j show ?thesis
      by (cases "k = j") (auto simp: record_state_def job_status_def split: option.splits)
  next
    case (Cancel k)
    with j show ?thesis
      by (cases "k = j") (auto simp: cancel_def job_status_def split: option.splits)
  next
    case (Evict k)
    with j assms(2) show ?thesis
      by (cases "k = j") (auto simp: evict_def job_status_def split: option.splits)
  qed
qed

text \<open>
  Claim C8, for the job manager as the spec describes it. No transition of the state
  machine leaves a terminal state, and whatever events follow, a job that has reached a
  terminal state is found in that same state, with all its fields, or has been evicted.
  A job is visible to a status query, as \<open>Queued\<close>, from the instant \<open>submit\<close> has
  accepted it, before any worker event; and no event makes a job invisible that has not
  reached a terminal state.
\<close>

theorem job_states_are_monotonic:
  "(terminal st \<longrightarrow> \<not> transition st st')
   \<and> (job_status j reg = Inr jb \<and> terminal (jobState jb) \<longrightarrow>
        job_status j (run_events reg evs) = Inr jb
      \<or> job_status j (run_events reg evs) = Inl JobNotFound)
   \<and> job_status (fst (submit b u operation ps reg)) (snd (submit b u operation ps reg))
        = Inr \<lparr>jobBucket = b, jobOwner = u, jobOperation = operation, jobParams = ps,
               jobState = Queued\<rparr>
   \<and> (job_status j reg = Inr jb \<and> \<not> terminal (jobState jb) \<longrightarrow>
        job_status j (job_step reg ev) \<noteq> Inl JobNotFound)"
proof (intro conjI impI)
  assume "terminal st"
  then show "\<not> transition st st'" by (rule terminal_no_transition)
next
  assume h: "job_status j reg = Inr jb \<and> terminal (jobState jb)"
  then have "j < length reg" "reg ! j = Some jb \<and> terminal (jobState jb) \<or> reg ! j = None"
    by (simp_all add: job_status_Some)
  from run_events_keeps_terminal [OF this, of evs]
  have l: "j < length (run_events reg evs)"
    and s: "run_events reg evs ! j = reg ! j \<or> run_events reg evs ! j = None"
    by simp_all
  from h have "reg ! j = Some jb"
    by (simp add: job_status_Some)
  with s have "run_events reg evs ! j = Some jb \<or> run_events reg evs ! j = None"
    by simp
  with l show "job_status j (run_events reg evs) = Inr jb
      \<or> job_status j (run_events reg evs) = Inl JobNotFound"
    by (auto simp: job_status_def)
next
  show "job_status (fst (submit b u operation ps reg)) (snd (submit b u operation ps reg))
        = Inr \<lparr>jobBucket = b, jobOwner = u, jobOperation = operation, jobParams = ps,
               jobState = Queued\<rparr>"
    by (simp add: submit_def job_status_def)
next
  assume "job_status j reg = Inr jb \<and> \<not> terminal (jobState jb)"
  then show "job_status j (job_step reg ev) \<noteq> Inl JobNotFound"
    by (intro job_step_keeps_visible) auto
qed

theorem job_states_witness:
  "terminal Succeeded \<and> \<not> transition Succeeded Running
   \<and> job_status 0 (run_events [] [Submit ''b1'' ''alice'' Zip [''sub'', ''sub.zip'']])
       = Inr \<lparr>jobBucket = ''b1'', jobOwner = ''alice'', jobOperation = Zip,
              jobParams = [''sub'', ''sub.zip''], jobState = Queued\<rparr>
   \<and> job_status 0
        (run_events
           (run_events [] [Submit ''b1'' ''alice'' Zip [''sub'', ''sub.zip''],
                           Worker 0 Running, Worker 0 Succeeded])
           [Worker 0 Running, Cancel 0, Worker 0 Failed,
            Submit ''b1'' ''bob'' Unzip [''sub.zip'', ''out'']])
       = Inr \<lparr>jobBucket = ''b1'', jobOwner = ''alice'', jobOperation = Zip,
              jobParams = [''sub'', ''sub.zip''], jobState = Succeeded\<rparr>
   \<and> job_status 0
        (job_step (run_events [] [Submit ''b1'' ''alice'' Zip [''sub'', ''sub.zip'']]) (Evict 0))
       \<noteq> Inl JobNotFound"
proof -
  let ?q = "\<lparr>jobBucket = ''b1'', jobOwner = ''alice'', jobOperation = Zip,
              jobParams = [''sub'', ''sub.zip''], jobState = Queued\<rparr>"
  let ?reg0 = "run_events [] [Submit ''b1'' ''alice'' Zip [''sub'', ''sub.zip'']]"
  have q: "job_status 0 ?reg0 = Inr ?q \<and> \<not> terminal (jobState ?q)"
    by (simp add: run_events_def submit_def job_status_def)
  have v: "job_status 0 (job_step ?reg0 (Evict 0)) \<noteq> Inl JobNotFound"
    by (rule mp [OF job_states_are_monotonic
          [of Succeeded Running 0 ?reg0 ?q "[]" "''b1''" "''alice''" Zip "[''sub'', ''sub.zip'']"
              "Evict 0",
           THEN conjunct2, THEN conjunct2, THEN conjunct2] q])
  let ?jb = "\<lparr>jobBucket = ''b1'', jobOwner = ''alice'', jobOperation = Zip,
              jobParams = [''sub'', ''sub.zip''], jobState = Succeeded\<rparr>"
  let ?reg = "run_events [] [Submit ''b1'' ''alice'' Zip [''sub'', ''sub.zip''],
                           Worker 0 Running, Worker 0 Succeeded]"
  let ?evs = "[Worker 0 Running, Cancel 0, Worker 0 Failed,
            Submit ''b1'' ''bob'' Unzip [''sub.zip'', ''out'']]"
  note t = job_states_are_monotonic
    [of Succeeded Running 0 ?reg ?jb ?evs "''b1''" "''alice''" Zip "[''sub'', ''sub.zip'']"]
  have reg: "job_status 0 ?reg = Inr ?jb \<and> terminal (jobState ?jb)"
    by (simp add: run_events_def submit_def record_state_def job_status_def)
  have nf: "job_status 0 (run_events ?reg ?evs) \<noteq> Inl JobNotFound"
    by (simp add: run_events_def submit_def record_state_def cancel_def job_status_def)
  from t have "terminal Succeeded \<longrightarrow> \<not> transition Succeeded Running"
    by (rule conjunct1)
  moreover
  have "job_status 0 (run_events ?reg ?evs) = Inr ?jb
      \<or> job_status 0 (run_events ?reg ?evs) = Inl JobNotFound"
    by (rule mp [OF t [THEN conjunct2, THEN conjunct1] reg])
  moreover from job_states_are_monotonic
    [of Succeeded Running 0 "[]" ?jb "[]" "''b1''" "''alice''" Zip "[''sub'', ''sub.zip'']"]
  have "job_status 0 (run_events [] [Submit ''b1'' ''alice'' Zip [''sub'', ''sub.zip'']])
       = Inr \<lparr>jobBucket = ''b1'', jobOwner = ''alice'', jobOperation = Zip,
              jobParams = [''sub'', ''sub.zip''], jobState = Queued\<rparr>"
    by (simp add: run_events_def submit_def)
  ultimately show ?thesis
    using nf v by simp
qed

end
